theory Spec2Isabelle
  imports Complex_Main
begin

section \<open>Numbers, errors and the optimizer context\<close>

text \<open>
  The program works on Python numbers and on the numbers of a symbolic library. The
  embedding takes them as exact reals: \<open>0.618\<close> is the fraction 618/1000 and \<open>0.01\<close> is
  1/100. The rounding of machine floats is outside the embedding.

  The program divides with \<open>/\<close> and never tests the divisor. A quotient by zero is no
  real number: on Python numbers the operator raises, and the symbolic library yields an
  infinite or undefined value that the number format of the printed line does not take.
  Either way the iteration that divides by zero prints no line and the run ends there.
  The embedding makes this the error value \<open>DivisionByZero\<close>.
\<close>

datatype error = DivisionByZero

definition py_div :: "real \<Rightarrow> real \<Rightarrow> error + real" where
  "py_div a b = (if b = 0 then Inl DivisionByZero else Inr (a / b))"

text \<open>
  Class \<open>opt_tech\<close>: the objective \<open>fx\<close> (an expression of the symbolic library, here
  any type \<open>'e\<close>), the number of iterations and the number of decimal places.
  The symbol \<open>self.x\<close> is the one free variable of \<open>fx\<close>; it is implicit in the
  substitution function below.
\<close>

record 'e opt_tech =
  fx :: 'e
  itr_no :: int
  prec :: nat

text \<open>
  The symbolic library is not part of the program. Its two operations the program calls
  are parameters of the embedding: \<open>diff\<close> (\<open>sp.diff\<close>, the derivative of an expression)
  and \<open>subs\<close> (\<open>e.subs(self.x, v)\<close>, the value of an expression at a point).
\<close>

section \<open>Newton's method\<close>

text \<open>
  The body of the loop of \<open>newtons_method\<close>: the improved approximation and its relative
  error, or the error of the first quotient whose divisor is zero.
\<close>

definition newton_step ::
  "(real \<Rightarrow> real) \<Rightarrow> (real \<Rightarrow> real) \<Rightarrow> real \<Rightarrow> error + real \<times> real" where
  "newton_step df ddf xi_old =
     (case py_div (df xi_old) (ddf xi_old) of
        Inl e \<Rightarrow> Inl e
      | Inr q \<Rightarrow>
          (let xi_new = xi_old - q in
           case py_div \<bar>xi_new - xi_old\<bar> \<bar>xi_new\<bar> of
             Inl e \<Rightarrow> Inl e
           | Inr relative_error \<Rightarrow> Inr (xi_new, relative_error)))"

text \<open>
  \<open>for i in range(self.itr_no)\<close>: \<open>i\<close> is the loop index, \<open>n\<close> the number of iterations
  still to run. The result is the list of printed lines \<open>(i + 1, xi_new, relative_error)\<close>
  and either the error that stopped the loop or the last approximation.
\<close>

fun newton_loop ::
  "(real \<Rightarrow> real) \<Rightarrow> (real \<Rightarrow> real) \<Rightarrow> nat \<Rightarrow> nat \<Rightarrow> real
     \<Rightarrow> (nat \<times> real \<times> real) list \<times> (error + real)" where
  "newton_loop df ddf i 0 xi_old = ([], Inr xi_old)"
| "newton_loop df ddf i (Suc n) xi_old =
     (case newton_step df ddf xi_old of
        Inl e \<Rightarrow> ([], Inl e)
      | Inr (xi_new, relative_error) \<Rightarrow>
          (case newton_loop df ddf (Suc i) n xi_new of
             (trace, out) \<Rightarrow> ((i + 1, xi_new, relative_error) # trace, out)))"

text \<open>
  The verdict after the loop. \<open>Accepted x f_dash fmax\<close> stands for the two lines
  \<open>f'(x) = f_dash (acceptably small)\<close> and \<open>fmax = f(x) = fmax\<close>;
  \<open>Rejected x\<close> for the line \<open>x is rejected\<close>.
\<close>

datatype verdict = Accepted real real real | Rejected real

fun final_point :: "verdict \<Rightarrow> real" where
  "final_point (Accepted x f_dash fmax) = x"
| "final_point (Rejected x) = x"


definition newton_verdict :: "(real \<Rightarrow> real) \<Rightarrow> (real \<Rightarrow> real) \<Rightarrow> real \<Rightarrow> verdict" where
  "newton_verdict f df xi_old =
     (let f_dash = df xi_old
      in if \<bar>f_dash\<bar> \<le> 0.01 then Accepted xi_old f_dash (f xi_old) else Rejected xi_old)"

definition newtons_method ::
  "('e \<Rightarrow> 'e) \<Rightarrow> ('e \<Rightarrow> real \<Rightarrow> real) \<Rightarrow> 'e opt_tech \<Rightarrow> real
     \<Rightarrow> (nat \<times> real \<times> real) list \<times> (error + verdict)" where
  "newtons_method diff subs self xo =
     (let df = diff (fx self); ddf = diff df
      in case newton_loop (subs df) (subs ddf) 0 (nat (itr_no self)) xo of
           (trace, Inl e) \<Rightarrow> (trace, Inl e)
         | (trace, Inr xi_old) \<Rightarrow>
             (trace, Inr (newton_verdict (subs (fx self)) (subs df) xi_old)))"

text \<open>
  The update of the specification, \<open>x_new = x_old - f'(x_old) / f''(x_old)\<close>, as a total
  function, to state what the loop computes.
\<close>

definition spec_newton_update :: "(real \<Rightarrow> real) \<Rightarrow> (real \<Rightarrow> real) \<Rightarrow> real \<Rightarrow> real" where
  "spec_newton_update df ddf x = x - df x / ddf x"

text \<open>
  The approximations of the specification for one call: \<open>x 0\<close> is the initial guess and
  \<open>x (k + 1)\<close> the update of \<open>x k\<close>, with the two derivatives taken once from \<open>fx\<close>.
\<close>

definition spec_newton_iterate ::
  "('e \<Rightarrow> 'e) \<Rightarrow> ('e \<Rightarrow> real \<Rightarrow> real) \<Rightarrow> 'e opt_tech \<Rightarrow> real \<Rightarrow> nat \<Rightarrow> real" where
  "spec_newton_iterate diff subs self xo k =
     (spec_newton_update (subs (diff (fx self))) (subs (diff (diff (fx self)))) ^^ k) xo"

section \<open>Golden section\<close>

text \<open>
  Python's \<open>round(v, ndigits)\<close> on exact numbers: to the nearest multiple of
  \<open>10 ^ (- ndigits)\<close>, a tie to the even one.
\<close>

definition round_half_even :: "real \<Rightarrow> int" where
  "round_half_even y =
     (let fl = \<lfloor>y\<rfloor>; d = y - of_int fl
      in if d < 1 / 2 then fl
         else if 1 / 2 < d then fl + 1
         else if even fl then fl else fl + 1)"

definition py_round :: "real \<Rightarrow> nat \<Rightarrow> real" where
  "py_round v ndigits = of_int (round_half_even (v * 10 ^ ndigits)) / 10 ^ ndigits"

text \<open>The four local variables of the loop of \<open>golden_section\<close>.\<close>

record bracket =
  xl :: real
  x2 :: real
  x1 :: real
  xu :: real

text \<open>One row of the printed table, in the order of its header.\<close>

record table_row =
  col_i :: nat
  col_xl :: real
  col_x2 :: real
  col_x1 :: real
  col_xu :: real
  col_fx2 :: real
  col_fx1 :: real
  col_width :: real
  col_errBound :: real

text \<open>The two comparison points, computed from the bounds at the top of the loop body.\<close>

definition probes :: "real \<Rightarrow> real \<Rightarrow> bracket" where
  "probes l u = \<lparr>xl = l, x2 = u - 0.618 * (u - l), x1 = l + 0.618 * (u - l), xu = u\<rparr>"

text \<open>
  The elimination at the end of the loop body. Both branches are simultaneous
  assignments: \<open>xl, x2 = x2, x1\<close> and \<open>xu, x1 = x1, x2\<close>.
\<close>

definition eliminate :: "real \<Rightarrow> real \<Rightarrow> bracket \<Rightarrow> bracket" where
  "eliminate fx1 fx2 b =
     (if fx1 > fx2 then b\<lparr>xl := x2 b, x2 := x1 b\<rparr> else b\<lparr>xu := x1 b, x1 := x2 b\<rparr>)"

text \<open>The list \<open>data\<close> of one iteration; the lists \<open>length\<close> and \<open>error_bound\<close> are read at \<open>i\<close>.\<close>

definition data_row :: "(real \<Rightarrow> real) \<Rightarrow> real list \<Rightarrow> real list \<Rightarrow> nat \<Rightarrow> bracket \<Rightarrow> table_row" where
  "data_row f length_tab error_bound i b =
     \<lparr>col_i = i + 1, col_xl = xl b, col_x2 = x2 b, col_x1 = x1 b, col_xu = xu b,
      col_fx2 = f (x2 b), col_fx1 = f (x1 b),
      col_width = length_tab ! i, col_errBound = error_bound ! i\<rparr>"

text \<open>
  The loop of \<open>golden_section\<close>, with \<open>i\<close> the loop index and \<open>n\<close> the iterations still to
  run. Each iteration assigns \<open>x2\<close> and \<open>x1\<close> from the bounds before it reads them, so the
  bounds are all that one iteration hands to the next. The result is the printed rows and
  the bounds after the last iteration. Both lists have \<open>itr_no\<close> entries and \<open>i\<close> stays
  below \<open>itr_no\<close>, so every index is in range.
\<close>

fun gs_loop ::
  "(real \<Rightarrow> real) \<Rightarrow> real list \<Rightarrow> real list \<Rightarrow> nat \<Rightarrow> nat \<Rightarrow> real \<Rightarrow> real
     \<Rightarrow> table_row list \<times> real \<times> real" where
  "gs_loop f length_tab error_bound i 0 l u = ([], l, u)"
| "gs_loop f length_tab error_bound i (Suc n) l u =
     (let b = probes l u;
          fx2 = f (x2 b);
          fx1 = f (x1 b);
          data = data_row f length_tab error_bound i b;
          b' = eliminate fx1 fx2 b
      in case gs_loop f length_tab error_bound (Suc i) n (xl b') (xu b') of
           (rows, final) \<Rightarrow> (data # rows, final))"

definition golden_section ::
  "('e \<Rightarrow> real \<Rightarrow> real) \<Rightarrow> 'e opt_tech \<Rightarrow> real \<Rightarrow> real \<Rightarrow> table_row list \<times> real \<times> real" where
  "golden_section subs self l u =
     (let n = nat (itr_no self);
          length_tab = map (\<lambda>i. py_round ((u - l) * 0.618 ^ i) (prec self)) [0..<n];
          error_bound = map (\<lambda>i. py_round ((u - l) * 0.618 ^ (i + 2)) (prec self)) [0..<n]
      in gs_loop (subs (fx self)) length_tab error_bound 0 n l u)"




section \<open>Polynomial objectives for concrete runs\<close>

text \<open>
  A polynomial as the list of its coefficients, the constant first, with its value at a
  point and its derivative: one instance of the two operations of the symbolic library.
\<close>

fun poly_subs :: "real list \<Rightarrow> real \<Rightarrow> real" where
  "poly_subs [] v = 0"
| "poly_subs (c # cs) v = c + v * poly_subs cs v"

fun poly_diff_from :: "nat \<Rightarrow> real list \<Rightarrow> real list" where
  "poly_diff_from k [] = []"
| "poly_diff_from k (c # cs) = (of_nat k * c) # poly_diff_from (Suc k) cs"

definition poly_diff :: "real list \<Rightarrow> real list" where
  "poly_diff cs = poly_diff_from 1 (tl cs)"


section \<open>The loop of Newton's method\<close>

lemma newton_step_Inr:
  "newton_step df ddf x = Inr (y, r) \<longleftrightarrow>
     ddf x \<noteq> 0 \<and> y = spec_newton_update df ddf x \<and> y \<noteq> 0 \<and> r = \<bar>y - x\<bar> / \<bar>y\<bar>"
  by (auto simp: newton_step_def py_div_def spec_newton_update_def Let_def)


text \<open>A loop that ends without error has run every iteration on the approximations of the specification.\<close>

lemma newton_loop_complete:
  "newton_loop df ddf i n x = (trace, Inr y) \<Longrightarrow>
     length trace = n \<and> y = (spec_newton_update df ddf ^^ n) x \<and>
     (\<forall>k<n. trace ! k =
        (i + k + 1, (spec_newton_update df ddf ^^ Suc k) x,
         \<bar>(spec_newton_update df ddf ^^ Suc k) x - (spec_newton_update df ddf ^^ k) x\<bar>
           / \<bar>(spec_newton_update df ddf ^^ Suc k) x\<bar>)) \<and>
     (\<forall>k<n. ddf ((spec_newton_update df ddf ^^ k) x) \<noteq> 0 \<and>
        (spec_newton_update df ddf ^^ Suc k) x \<noteq> 0)"
proof (induction n arbitrary: i x trace)
  case 0
  then show ?case by simp
next
  case (Suc n)
  let ?g = "spec_newton_update df ddf"
  from Suc.prems obtain x' r tr where
    st: "newton_step df ddf x = Inr (x', r)" and
    rec: "newton_loop df ddf (Suc i) n x' = (tr, Inr y)" and
    tr: "trace = (i + 1, x', r) # tr"
    by (auto split: sum.splits prod.splits)
  from st have x': "x' = ?g x" and nz: "ddf x \<noteq> 0" "x' \<noteq> 0" and r: "r = \<bar>x' - x\<bar> / \<bar>x'\<bar>"
    by (simp_all add: newton_step_Inr)
  note IH = Suc.IH [OF rec]
  have pw: "(?g ^^ k) x' = (?g ^^ Suc k) x" for k
    by (simp add: x' funpow_swap1)
  have len: "length trace = Suc n" using IH tr by simp
  have fin: "y = (?g ^^ Suc n) x" using IH pw by simp
  have rows: "trace ! k =
        (i + k + 1, (?g ^^ Suc k) x, \<bar>(?g ^^ Suc k) x - (?g ^^ k) x\<bar> / \<bar>(?g ^^ Suc k) x\<bar>)"
    if "k < Suc n" for k
  proof (cases k)
    case 0
    then show ?thesis using tr r x' by simp
  next
    case (Suc j)
    with that have "j < n" by simp
    with IH have "tr ! j = (Suc i + j + 1, (?g ^^ Suc j) x',
        \<bar>(?g ^^ Suc j) x' - (?g ^^ j) x'\<bar> / \<bar>(?g ^^ Suc j) x'\<bar>)"
      by blast
    then show ?thesis unfolding pw using Suc tr by simp
  qed
  have ok: "ddf ((?g ^^ k) x) \<noteq> 0 \<and> (?g ^^ Suc k) x \<noteq> 0" if "k < Suc n" for k
  proof (cases k)
    case 0
    then show ?thesis using nz x' by simp
  next
    case (Suc j)
    with that have "j < n" by simp
    with IH have "ddf ((?g ^^ j) x') \<noteq> 0 \<and> (?g ^^ Suc j) x' \<noteq> 0" by blast
    then show ?thesis unfolding pw using Suc by simp
  qed
  from len fin rows ok show ?case by blast
qed


text \<open>The loop ends without error when no divisor on its way is zero.\<close>

lemma newton_loop_total:
  "(\<forall>k<n. ddf ((spec_newton_update df ddf ^^ k) x) \<noteq> 0 \<and>
        (spec_newton_update df ddf ^^ Suc k) x \<noteq> 0) \<Longrightarrow>
   \<exists>trace y. newton_loop df ddf i n x = (trace, Inr y)"
proof (induction n arbitrary: i x)
  case 0
  then show ?case by simp
next
  case (Suc n)
  let ?g = "spec_newton_update df ddf"
  from Suc.prems have "ddf x \<noteq> 0 \<and> ?g x \<noteq> 0" by force
  then have st: "newton_step df ddf x = Inr (?g x, \<bar>?g x - x\<bar> / \<bar>?g x\<bar>)"
    by (simp add: newton_step_Inr)
  have "\<forall>k<n. ddf ((?g ^^ k) (?g x)) \<noteq> 0 \<and> (?g ^^ Suc k) (?g x) \<noteq> 0"
  proof (intro allI impI)
    fix k assume "k < n"
    then have "Suc k < Suc n" by simp
    with Suc.prems have "ddf ((?g ^^ Suc k) x) \<noteq> 0 \<and> (?g ^^ Suc (Suc k)) x \<noteq> 0" by blast
    then show "ddf ((?g ^^ k) (?g x)) \<noteq> 0 \<and> (?g ^^ Suc k) (?g x) \<noteq> 0"
      by (simp add: funpow_swap1)
  qed
  from Suc.IH [OF this, of "Suc i"] obtain tr y where
    "newton_loop df ddf (Suc i) n (?g x) = (tr, Inr y)" by blast
  with st show ?case by simp
qed

text \<open>A loop of \<open>k + m\<close> iterations is a loop of \<open>k\<close> iterations followed, if it ends without error, by one of \<open>m\<close>.\<close>

lemma newton_loop_add:
  "newton_loop df ddf i (k + m) x =
     (case newton_loop df ddf i k x of
        (tr, Inl e) \<Rightarrow> (tr, Inl e)
      | (tr, Inr y) \<Rightarrow>
          (case newton_loop df ddf (i + k) m y of (tr', out) \<Rightarrow> (tr @ tr', out)))"
  by (induction k arbitrary: i x) (auto split: sum.splits prod.splits)

lemma newtons_method_Inr:
  "newtons_method diff subs self xo = (trace, Inr v) \<longleftrightarrow>
     (\<exists>y. newton_loop (subs (diff (fx self))) (subs (diff (diff (fx self)))) 0
             (nat (itr_no self)) xo = (trace, Inr y) \<and>
          v = newton_verdict (subs (fx self)) (subs (diff (fx self))) y)"
  by (auto simp: newtons_method_def Let_def split: prod.splits sum.splits)

lemma newtons_method_Inl:
  "newtons_method diff subs self xo = (trace, Inl e) \<longleftrightarrow>
     newton_loop (subs (diff (fx self))) (subs (diff (diff (fx self)))) 0
       (nat (itr_no self)) xo = (trace, Inl e)"
  by (auto simp: newtons_method_def Let_def split: prod.splits sum.splits)

lemma final_point_newton_verdict: "final_point (newton_verdict f df y) = y"
  by (simp add: newton_verdict_def Let_def)


text \<open>
  A run of \<open>k\<close> iterations that ends without error at a point where the next iteration
  meets a zero divisor: every longer run stops there, with the lines of the first \<open>k\<close>
  iterations printed.
\<close>

lemma newton_step_zero_divisor:
  "ddf x = 0 \<or> spec_newton_update df ddf x = 0 \<Longrightarrow> newton_step df ddf x = Inl DivisionByZero"
  by (auto simp: newton_step_def py_div_def spec_newton_update_def Let_def)

lemma newtons_method_aborts:
  assumes pre: "newtons_method diff subs (self\<lparr>itr_no := int k\<rparr>) xo = (trace, Inr v)"
      and k: "int k < itr_no self"
      and z: "subs (diff (diff (fx self))) (final_point v) = 0 \<or>
              spec_newton_update (subs (diff (fx self))) (subs (diff (diff (fx self))))
                (final_point v) = 0"
  shows "newtons_method diff subs self xo = (trace, Inl DivisionByZero) \<and> length trace = k"
proof -
  let ?df = "subs (diff (fx self))" and ?ddf = "subs (diff (diff (fx self)))"
  from pre obtain y where
    loop: "newton_loop ?df ?ddf 0 k xo = (trace, Inr y)" and
    v: "v = newton_verdict (subs (fx self)) ?df y"
    unfolding newtons_method_Inr by auto
  have y: "final_point v = y" using v by (simp add: final_point_newton_verdict)
  from k have "k < nat (itr_no self)" by linarith
  then obtain m where n: "nat (itr_no self) = k + Suc m"
    using less_imp_Suc_add by auto
  have "newton_step ?df ?ddf y = Inl DivisionByZero"
    using z y by (simp add: newton_step_zero_divisor)
  then have tail: "newton_loop ?df ?ddf (0 + k) (Suc m) y = ([], Inl DivisionByZero)"
    by simp
  have "newton_loop ?df ?ddf 0 (k + Suc m) xo = (trace, Inl DivisionByZero)"
    by (simp only: newton_loop_add [of ?df ?ddf 0 k "Suc m" xo] loop tail
          prod.case sum.case append_Nil2)
  then have "newtons_method diff subs self xo = (trace, Inl DivisionByZero)"
    unfolding newtons_method_Inl n .
  moreover have "length trace = k" using newton_loop_complete [OF loop] by blast
  ultimately show ?thesis by blast
qed

section \<open>The loop of golden section\<close>








lemma probes_order:
  "l < u \<Longrightarrow> xl (probes l u) < x2 (probes l u) \<and> x2 (probes l u) < x1 (probes l u)
     \<and> x1 (probes l u) < xu (probes l u)"
  by (simp add: probes_def field_simps)












section \<open>Claims on Newton's method\<close>







text \<open>
  C10. The relative error is a quotient by \<open>|x_new|\<close> with no guard: an iteration whose
  new approximation is exactly 0 fails with a division by zero and the run stops there.
  A run ends without error exactly when at every iteration the second derivative at the
  old approximation and the new approximation are both non-zero.
\<close>

theorem newton_zero_approximation_aborts:
  "(newtons_method diff subs (self\<lparr>itr_no := int k\<rparr>) xo = (trace, Inr v) \<and>
    int k < itr_no self \<and>
    subs (diff (diff (fx self))) (final_point v) \<noteq> 0 \<and>
    final_point v
      - subs (diff (fx self)) (final_point v) / subs (diff (diff (fx self))) (final_point v) = 0
    \<longrightarrow> newtons_method diff subs self xo = (trace, Inl DivisionByZero) \<and> length trace = k) \<and>
   ((\<exists>tr w. newtons_method diff subs self xo = (tr, Inr w)) \<longleftrightarrow>
    (\<forall>j<nat (itr_no self).
        subs (diff (diff (fx self))) (spec_newton_iterate diff subs self xo j) \<noteq> 0 \<and>
        spec_newton_iterate diff subs self xo (Suc j) \<noteq> 0))"
proof (intro conjI impI)
  assume A: "newtons_method diff subs (self\<lparr>itr_no := int k\<rparr>) xo = (trace, Inr v) \<and>
    int k < itr_no self \<and>
    subs (diff (diff (fx self))) (final_point v) \<noteq> 0 \<and>
    final_point v
      - subs (diff (fx self)) (final_point v) / subs (diff (diff (fx self))) (final_point v) = 0"
  then have "spec_newton_update (subs (diff (fx self))) (subs (diff (diff (fx self))))
                (final_point v) = 0"
    by (simp add: spec_newton_update_def)
  with A newtons_method_aborts [where diff = diff and subs = subs and self = self and k = k
      and xo = xo and trace = trace and v = v]
  show "newtons_method diff subs self xo = (trace, Inl DivisionByZero)"
    and "length trace = k"
    by blast+
next
  let ?df = "subs (diff (fx self))" and ?ddf = "subs (diff (diff (fx self)))"
  show "(\<exists>tr w. newtons_method diff subs self xo = (tr, Inr w)) \<longleftrightarrow>
    (\<forall>j<nat (itr_no self).
        ?ddf (spec_newton_iterate diff subs self xo j) \<noteq> 0 \<and>
        spec_newton_iterate diff subs self xo (Suc j) \<noteq> 0)"
  proof
    assume "\<exists>tr w. newtons_method diff subs self xo = (tr, Inr w)"
    then obtain tr y where
      "newton_loop ?df ?ddf 0 (nat (itr_no self)) xo = (tr, Inr y)"
      unfolding newtons_method_Inr by blast
    from newton_loop_complete [OF this]
    show "\<forall>j<nat (itr_no self).
        ?ddf (spec_newton_iterate diff subs self xo j) \<noteq> 0 \<and>
        spec_newton_iterate diff subs self xo (Suc j) \<noteq> 0"
      unfolding spec_newton_iterate_def by blast
  next
    assume "\<forall>j<nat (itr_no self).
        ?ddf (spec_newton_iterate diff subs self xo j) \<noteq> 0 \<and>
        spec_newton_iterate diff subs self xo (Suc j) \<noteq> 0"
    then have "\<forall>j<nat (itr_no self).
        ?ddf ((spec_newton_update ?df ?ddf ^^ j) xo) \<noteq> 0 \<and>
        (spec_newton_update ?df ?ddf ^^ Suc j) xo \<noteq> 0"
      unfolding spec_newton_iterate_def .
    from newton_loop_total [OF this, of 0]
    show "\<exists>tr w. newtons_method diff subs self xo = (tr, Inr w)"
      unfolding newtons_method_Inr by blast
  qed
qed

text \<open>
  One run of \<open>C10\<close>: on \<open>x + x\<^sup>2 + x\<^sup>3/3\<close> from 3 the first iteration reaches 1 and the
  second computes the new approximation 0, where the relative error cannot be taken.
\<close>

theorem newton_zero_approximation_aborts_witness:
  "newtons_method poly_diff poly_subs \<lparr>fx = [0, 1, 1, 1 / 3], itr_no = 3, prec = 3\<rparr> 3
     = ([(1, 1, 2)], Inl DivisionByZero)"
proof -
  let ?self = "\<lparr>fx = [0, 1, 1, 1 / 3], itr_no = 3, prec = 3\<rparr>"
  have pre: "newtons_method poly_diff poly_subs (?self\<lparr>itr_no := int 1\<rparr>) 3
      = ([(1, 1, 2)], Inr (Rejected 1))"
    by code_simp
  have k: "int 1 < itr_no ?self" by simp
  have nz: "poly_subs (poly_diff (poly_diff (fx ?self))) (final_point (Rejected 1)) \<noteq> 0"
    by (simp add: poly_diff_def)
  have z: "final_point (Rejected 1)
      - poly_subs (poly_diff (fx ?self)) (final_point (Rejected 1))
        / poly_subs (poly_diff (poly_diff (fx ?self))) (final_point (Rejected 1)) = 0"
    by (simp add: poly_diff_def)
  from newton_zero_approximation_aborts
    [THEN conjunct1, rule_format, OF conjI [OF pre conjI [OF k conjI [OF nz z]]]]
  show ?thesis by (rule conjunct1)
qed

section \<open>Claims on golden section\<close>










section \<open>Claims on the checks of the inputs\<close>

text \<open>
  C8, as the program has it. Neither method checks the iteration count. With a count
  below 1 the loop \<open>for i in range(self.itr_no)\<close> has no iteration and the run ends
  normally: Newton's method prints no line and gives its verdict on the initial guess;
  golden section prints no row and leaves the bounds as given.
\<close>

theorem no_iteration_count_check:
  assumes "itr_no self < 1"
  shows "newtons_method diff subs self xo =
           ([], Inr (newton_verdict (subs (fx self)) (subs (diff (fx self))) xo)) \<and>
         golden_section subs self l u = ([], l, u)"
  using assms by (simp add: newtons_method_def golden_section_def Let_def)

text \<open>One run of \<open>C8\<close> as amended, with the iteration count \<open>- 2\<close>.\<close>

theorem no_iteration_count_check_witness:
  "newtons_method poly_diff poly_subs \<lparr>fx = [0, 4, - 1], itr_no = - 2, prec = 3\<rparr> 5 =
     ([], Inr (newton_verdict (poly_subs [0, 4, - 1]) (poly_subs (poly_diff [0, 4, - 1])) 5)) \<and>
   golden_section poly_subs \<lparr>fx = [0, 4, - 1], itr_no = - 2, prec = 3\<rparr> 0 4 = ([], 0, 4)"
proof -
  have h: "itr_no \<lparr>fx = [0, 4, - 1 :: real], itr_no = - 2, prec = 3\<rparr> < 1" by simp
  from no_iteration_count_check [OF h, where diff = poly_diff and subs = poly_subs and xo = 5 and l = 0 and u = 4] show ?thesis by simp
qed

text \<open>
  C8 as stated fails: with the iteration count 0 both methods end normally, Newton's
  method with an accepted point, and no error is raised.
\<close>

theorem iteration_count_zero_counterexample:
  "newtons_method poly_diff poly_subs \<lparr>fx = [0, 4, - 1], itr_no = 0, prec = 3\<rparr> 2 =
     ([], Inr (Accepted 2 0 4)) \<and>
   golden_section poly_subs \<lparr>fx = [0, 4, - 1], itr_no = 0, prec = 3\<rparr> 0 4 = ([], 0, 4)"
  by (simp add: newtons_method_def golden_section_def newton_verdict_def poly_diff_def Let_def)




end
